theory Spec2Isabelle
  imports Complex_Main
begin

section \<open>The point-adjustment pipeline of lifeline (main.go)\<close>

text \<open>
  The program reads a list of points, sorts it by year and then adjusts the years in
  three passes, all written inline in \<^verbatim>\<open>main\<close> (main.go, lines 108 to 237): the
  same-year pass, the density-based scaling and the pass that restores chronological
  order. Each loop of the source is one recursive function here, with the loop variable
  and the arrays the loop writes as arguments.

  Numbers: the source computes with \<^verbatim>\<open>float64\<close>. The model computes with \<^typ>\<open>real\<close>,
  that is, with exact arithmetic: rounding, overflow, infinities and NaN are outside of
  it. A \<^verbatim>\<open>float64\<close> division by zero does not panic in Go (it gives an infinity or NaN);
  the model marks it as the error \<open>DivisionByZero\<close>, so that its absence is a theorem and
  not an accident of HOL's total division. The counters of the source are \<^verbatim>\<open>int\<close>; they
  only count upwards from zero and are bounded by the length of the slice, so they are
  \<^typ>\<open>nat\<close> here.
\<close>

subsection \<open>Data\<close>

record Point =
  Year :: real
  Value :: real
  Label :: string

datatype error = DivisionByZero

definition fdiv :: "real \<Rightarrow> real \<Rightarrow> error + real" where
  "fdiv a b = (if b = 0 then Inl DivisionByZero else Inr (a / b))"

subsection \<open>First pass: same-year overlaps (lines 114 to 150)\<close>

text \<open>Lines 119 to 123: count the events of the year \<open>currentYear\<close>.\<close>

function sameYearCount_loop :: "Point list \<Rightarrow> real \<Rightarrow> nat \<Rightarrow> nat \<Rightarrow> nat" where
  "sameYearCount_loop points currentYear j sameYearCount =
     (if j < length points then
        (if Year (points ! j) = currentYear
         then sameYearCount_loop points currentYear (j + 1) (sameYearCount + 1)
         else sameYearCount_loop points currentYear (j + 1) sameYearCount)
      else sameYearCount)"
  by pat_completeness auto
termination
  by (relation "measure (\<lambda>(points, currentYear, j, sameYearCount). length points - j)") auto

text \<open>Lines 129 to 136: the position of event \<open>i\<close> among the events of its year; the
  loop breaks at \<open>j = i\<close>.\<close>

function eventIndex_loop :: "Point list \<Rightarrow> real \<Rightarrow> nat \<Rightarrow> nat \<Rightarrow> nat \<Rightarrow> nat" where
  "eventIndex_loop points currentYear i j eventIndex =
     (if j < length points then
        (if Year (points ! j) = currentYear then
           (if j = i then eventIndex
            else eventIndex_loop points currentYear i (j + 1) (eventIndex + 1))
         else eventIndex_loop points currentYear i (j + 1) eventIndex)
      else eventIndex)"
  by pat_completeness auto
termination
  by (relation "measure (\<lambda>(points, currentYear, i, j, eventIndex). length points - j)") auto

text \<open>Lines 139 to 141.\<close>

definition newYear :: "real \<Rightarrow> nat \<Rightarrow> nat \<Rightarrow> real" where
  "newYear currentYear sameYearCount eventIndex =
     (let spacing = 0.2;
          totalOffset = real (sameYearCount - 1) * spacing / 2
      in currentYear - totalOffset + (real eventIndex * spacing))"

text \<open>Lines 114 to 150: the outer loop. It reads \<open>points\<close> and writes \<open>adjustedPoints\<close>.\<close>

function sameYear_loop :: "Point list \<Rightarrow> Point list \<Rightarrow> nat \<Rightarrow> Point list" where
  "sameYear_loop points adjustedPoints i =
     (if i < length adjustedPoints then
        (let currentYear = Year (adjustedPoints ! i);
             sameYearCount = sameYearCount_loop points currentYear 0 0
         in if sameYearCount > 1 then
              (let eventIndex = eventIndex_loop points currentYear i 0 0
               in sameYear_loop points
                    (adjustedPoints[i := (adjustedPoints ! i)
                        \<lparr>Year := newYear currentYear sameYearCount eventIndex\<rparr>])
                    (i + 1))
            else sameYear_loop points adjustedPoints (i + 1))
      else adjustedPoints)"
  by pat_completeness auto
termination
  by (relation "measure (\<lambda>(points, adjustedPoints, i). length adjustedPoints - i)") auto

text \<open>Lines 108 to 150: \<open>adjustedPoints\<close> starts as a copy of \<open>points\<close>.\<close>

definition sameYearPass :: "Point list \<Rightarrow> Point list" where
  "sameYearPass points = sameYear_loop points points 0"

subsection \<open>Second pass: density-based scaling (lines 153 to 206)\<close>

text \<open>Lines 162 to 166: the points within the density window of point \<open>i\<close>.\<close>

function count_loop :: "Point list \<Rightarrow> nat \<Rightarrow> nat \<Rightarrow> nat \<Rightarrow> nat" where
  "count_loop adjustedPoints i j count =
     (if j < length adjustedPoints then
        (let densityWindow = 3.0
         in if \<bar>Year (adjustedPoints ! j) - Year (adjustedPoints ! i)\<bar> \<le> densityWindow
            then count_loop adjustedPoints i (j + 1) (count + 1)
            else count_loop adjustedPoints i (j + 1) count)
      else count)"
  by pat_completeness auto
termination
  by (relation "measure (\<lambda>(adjustedPoints, i, j, count). length adjustedPoints - j)") auto

text \<open>Lines 160 to 168.\<close>

function densities_loop :: "Point list \<Rightarrow> real list \<Rightarrow> nat \<Rightarrow> real list" where
  "densities_loop adjustedPoints densities i =
     (if i < length adjustedPoints then
        densities_loop adjustedPoints
          (densities[i := real (count_loop adjustedPoints i 0 0)]) (i + 1)
      else densities)"
  by pat_completeness auto
termination
  by (relation "measure (\<lambda>(adjustedPoints, densities, i). length adjustedPoints - i)") auto

definition computeDensities :: "Point list \<Rightarrow> real list" where
  "computeDensities adjustedPoints =
     densities_loop adjustedPoints (replicate (length adjustedPoints) 0) 0"

text \<open>Lines 185 and 186.\<close>

definition scaleFactor :: "real \<Rightarrow> real \<Rightarrow> real" where
  "scaleFactor d dprev = (let avgDensity = (d + dprev) / 2 in 1.0 + (avgDensity - 1.0) * 1.5)"

text \<open>Lines 180 to 190: the scaled distances and their total.\<close>

function scaledDistances_loop ::
  "Point list \<Rightarrow> real list \<Rightarrow> real list \<Rightarrow> real \<Rightarrow> nat \<Rightarrow> real list \<times> real" where
  "scaledDistances_loop adjustedPoints densities scaledDistances totalScaledDistance i =
     (if i < length adjustedPoints then
        (let actualDistance = Year (adjustedPoints ! i) - Year (adjustedPoints ! (i - 1));
             scaledDistances' =
               scaledDistances[i := actualDistance * scaleFactor (densities ! i) (densities ! (i - 1))]
         in scaledDistances_loop adjustedPoints densities scaledDistances'
              (totalScaledDistance + scaledDistances' ! i) (i + 1))
      else (scaledDistances, totalScaledDistance))"
  by pat_completeness auto
termination
  by (relation "measure (\<lambda>(adjustedPoints, densities, scaledDistances, totalScaledDistance, i).
        length adjustedPoints - i)") auto

definition computeScaledDistances :: "Point list \<Rightarrow> real list \<times> real" where
  "computeScaledDistances adjustedPoints =
     scaledDistances_loop adjustedPoints (computeDensities adjustedPoints)
       (replicate (length adjustedPoints) 0) 0.0 1"

text \<open>Lines 196 to 206: the normalised positions. The division of line 201 is the only
  one of the pipeline whose divisor is not a literal.\<close>

function position_loop ::
  "Point list \<Rightarrow> real list \<Rightarrow> real \<Rightarrow> real \<Rightarrow> real \<Rightarrow> Point list \<Rightarrow> real \<Rightarrow> nat
     \<Rightarrow> error + Point list" where
  "position_loop adjustedPoints scaledDistances totalScaledDistance minYear totalRange
       densityScaledPoints cumulativeScaledDistance i =
     (if i < length adjustedPoints then
        (let cumulativeScaledDistance' = cumulativeScaledDistance + scaledDistances ! i
         in if totalScaledDistance > 0 then
              (case fdiv cumulativeScaledDistance' totalScaledDistance of
                 Inl e \<Rightarrow> Inl e
               | Inr normalizedPosition \<Rightarrow>
                   position_loop adjustedPoints scaledDistances totalScaledDistance minYear
                     totalRange
                     (densityScaledPoints[i := (densityScaledPoints ! i)
                         \<lparr>Year := minYear + normalizedPosition * totalRange\<rparr>])
                     cumulativeScaledDistance' (i + 1))
            else
              position_loop adjustedPoints scaledDistances totalScaledDistance minYear
                totalRange
                (densityScaledPoints[i := (densityScaledPoints ! i)
                    \<lparr>Year := Year (adjustedPoints ! i)\<rparr>])
                cumulativeScaledDistance' (i + 1))
      else Inr densityScaledPoints)"
  by pat_completeness auto
termination
  by (relation "measure (\<lambda>(adjustedPoints, scaledDistances, totalScaledDistance, minYear,
        totalRange, densityScaledPoints, cumulativeScaledDistance, i).
        length adjustedPoints - i)") auto

text \<open>Lines 153 to 206: \<open>densityScaledPoints\<close> starts as a copy of \<open>adjustedPoints\<close>;
  nothing is done to an empty slice (line 171).\<close>

definition densityScale :: "Point list \<Rightarrow> error + Point list" where
  "densityScale adjustedPoints =
     (let densityScaledPoints = adjustedPoints in
      if length densityScaledPoints > 0 then
        (let minYear = Year (adjustedPoints ! 0);
             maxYear = Year (adjustedPoints ! (length adjustedPoints - 1));
             totalRange = maxYear - minYear;
             (scaledDistances, totalScaledDistance) = computeScaledDistances adjustedPoints
         in position_loop adjustedPoints scaledDistances totalScaledDistance minYear totalRange
              (densityScaledPoints[0 := (densityScaledPoints ! 0)\<lparr>Year := minYear\<rparr>]) 0.0 1)
      else Inr densityScaledPoints)"

subsection \<open>Third pass: chronological order (lines 212 to 217)\<close>

function order_loop :: "Point list \<Rightarrow> nat \<Rightarrow> Point list" where
  "order_loop densityScaledPoints i =
     (if i < length densityScaledPoints then
        (if Year (densityScaledPoints ! i) \<le> Year (densityScaledPoints ! (i - 1))
         then order_loop
                (densityScaledPoints[i := (densityScaledPoints ! i)
                    \<lparr>Year := Year (densityScaledPoints ! (i - 1)) + 0.1\<rparr>])
                (i + 1)
         else order_loop densityScaledPoints (i + 1))
      else densityScaledPoints)"
  by pat_completeness auto
termination
  by (relation "measure (\<lambda>(densityScaledPoints, i). length densityScaledPoints - i)") auto

definition enforceOrder :: "Point list \<Rightarrow> Point list" where
  "enforceOrder densityScaledPoints = order_loop densityScaledPoints 1"

subsection \<open>The pipeline (lines 108 to 237)\<close>

text \<open>The three passes in sequence. \<^verbatim>\<open>main\<close> stops at line 101 when there is no point; the
  passes themselves return an empty slice as it is.\<close>

definition adjustPoints :: "Point list \<Rightarrow> error + Point list" where
  "adjustPoints points =
     (case densityScale (sameYearPass points) of
        Inl e \<Rightarrow> Inl e
      | Inr densityScaledPoints \<Rightarrow> Inr (enforceOrder densityScaledPoints))"

subsection \<open>Notions used to state the properties\<close>

text \<open>
  The loops above are characterised below by closed forms. The closed forms are stated
  with the following notions; none of them is part of the program.
\<close>

text \<open>The number of points of \<open>points\<close> whose year is \<open>T\<close>.\<close>

definition groupSize :: "Point list \<Rightarrow> real \<Rightarrow> nat" where
  "groupSize points T = length (filter (\<lambda>p. Year p = T) points)"

text \<open>The number of points before index \<open>i\<close> that have the year of point \<open>i\<close>: the
  zero-based rank of point \<open>i\<close> in its group, in sequence order.\<close>

definition rank :: "Point list \<Rightarrow> nat \<Rightarrow> nat" where
  "rank points i = length (filter (\<lambda>p. Year p = Year (points ! i)) (take i points))"


text \<open>Point \<open>i\<close> after the first pass.\<close>

definition spaced :: "Point list \<Rightarrow> nat \<Rightarrow> Point" where
  "spaced points i =
     (let T = Year (points ! i); n = groupSize points T
      in if n > 1 then (points ! i)\<lparr>Year := T - real (n - 1) * 0.2 / 2 + real (rank points i) * 0.2\<rparr>
         else points ! i)"

text \<open>The points within 3 units of point \<open>i\<close>.\<close>

definition inWindow :: "Point list \<Rightarrow> nat \<Rightarrow> Point list" where
  "inWindow adj i = filter (\<lambda>p. \<bar>Year p - Year (adj ! i)\<bar> \<le> 3) adj"

text \<open>The scaled distance between point \<open>k - 1\<close> and point \<open>k\<close>, for densities \<open>d\<close>.\<close>

definition scaledGap :: "Point list \<Rightarrow> real list \<Rightarrow> nat \<Rightarrow> real" where
  "scaledGap adj d k = (Year (adj ! k) - Year (adj ! (k - 1))) * scaleFactor (d ! k) (d ! (k - 1))"

text \<open>The total of the scaled distances, and the year of point \<open>k\<close> after the second pass.\<close>

definition totalScaled :: "Point list \<Rightarrow> real" where
  "totalScaled adj = (\<Sum>k = 1..<length adj. scaledGap adj (computeDensities adj) k)"

definition scaledYear :: "Point list \<Rightarrow> nat \<Rightarrow> real" where
  "scaledYear adj k =
     (if k = 0 then Year (adj ! 0)
      else if totalScaled adj > 0 then
        Year (adj ! 0) + ((\<Sum>j = 1..k. scaledGap adj (computeDensities adj) j) / totalScaled adj)
            * (Year (adj ! (length adj - 1)) - Year (adj ! 0))
      else Year (adj ! k))"



subsection \<open>Inputs of the examples\<close>

text \<open>The three points of the scenario of the specification, already sorted, and the same
  points after the first pass.\<close>

abbreviation scenario :: "Point list" where
  "scenario \<equiv>
     [\<lparr>Year = 1990, Value = 10, Label = ''A''\<rparr>, \<lparr>Year = 1990, Value = 20, Label = ''B''\<rparr>,
      \<lparr>Year = 1995, Value = 5, Label = ''C''\<rparr>]"

abbreviation spacedScenario :: "Point list" where
  "spacedScenario \<equiv>
     [\<lparr>Year = 1989.9, Value = 10, Label = ''A''\<rparr>, \<lparr>Year = 1990.1, Value = 20, Label = ''B''\<rparr>,
      \<lparr>Year = 1995, Value = 5, Label = ''C''\<rparr>]"




section \<open>The loops in closed form\<close>

text \<open>The defining equations of the loops are unfolded one step at a time.\<close>

declare sameYearCount_loop.simps [simp del] eventIndex_loop.simps [simp del]
  sameYear_loop.simps [simp del] count_loop.simps [simp del] densities_loop.simps [simp del]
  scaledDistances_loop.simps [simp del] position_loop.simps [simp del] order_loop.simps [simp del]

subsection \<open>First pass\<close>

lemma sameYearCount_loop_eq:
  "sameYearCount_loop points cy j c = c + length (filter (\<lambda>p. Year p = cy) (drop j points))"
proof (induction points cy j c rule: sameYearCount_loop.induct)
  case (1 points cy j c)
  show ?case
  proof (cases "j < length points")
    case True
    then have d: "drop j points = points ! j # drop (Suc j) points"
      by (simp add: Cons_nth_drop_Suc)
    show ?thesis
      using 1 True d by (subst sameYearCount_loop.simps) auto
  next
    case False
    then show ?thesis by (subst sameYearCount_loop.simps) simp
  qed
qed

lemma sameYearCount_groupSize: "sameYearCount_loop points cy 0 0 = groupSize points cy"
  by (simp add: sameYearCount_loop_eq groupSize_def)

lemma eventIndex_loop_eq:
  "j \<le> i \<Longrightarrow> i < length points \<Longrightarrow> Year (points ! i) = cy \<Longrightarrow>
   eventIndex_loop points cy i j e
     = e + length (filter (\<lambda>p. Year p = cy) (take (i - j) (drop j points)))"
proof (induction points cy i j e rule: eventIndex_loop.induct)
  case (1 points cy i j e)
  from "1.prems" have jl: "j < length points" by simp
  show ?case
  proof (cases "j = i")
    case True
    with "1.prems" show ?thesis by (subst eventIndex_loop.simps) simp
  next
    case False
    with "1.prems" have lt: "j < i" by simp
    then have ij: "i - j = Suc (i - (j + 1))" by simp
    have d: "drop j points = points ! j # drop (j + 1) points"
      using jl by (simp add: Cons_nth_drop_Suc)
    show ?thesis
    proof (cases "Year (points ! j) = cy")
      case True
      have "eventIndex_loop points cy i j e = eventIndex_loop points cy i (j + 1) (e + 1)"
        using jl True False by (subst eventIndex_loop.simps) simp
      also have "\<dots> = e + 1 + length (filter (\<lambda>p. Year p = cy) (take (i - (j + 1)) (drop (j + 1) points)))"
        using "1.IH"(1) [OF jl True False] lt "1.prems" by simp
      finally show ?thesis using True by (simp add: ij d)
    next
      case F: False
      have "eventIndex_loop points cy i j e = eventIndex_loop points cy i (j + 1) e"
        using jl F by (subst eventIndex_loop.simps) simp
      also have "\<dots> = e + length (filter (\<lambda>p. Year p = cy) (take (i - (j + 1)) (drop (j + 1) points)))"
        using "1.IH"(2) [OF jl F] lt "1.prems" by simp
      finally show ?thesis using F by (simp add: ij d)
    qed
  qed
qed

lemma eventIndex_rank:
  "i < length points \<Longrightarrow> eventIndex_loop points (Year (points ! i)) i 0 0 = rank points i"
  by (simp add: eventIndex_loop_eq rank_def)

lemma sameYear_loop_nth:
  "length adj = length points \<Longrightarrow> (\<forall>k. i \<le> k \<and> k < length points \<longrightarrow> adj ! k = points ! k) \<Longrightarrow>
   length (sameYear_loop points adj i) = length points \<and>
   (\<forall>k<length points. sameYear_loop points adj i ! k = (if k < i then adj ! k else spaced points k))"
proof (induction points adj i rule: sameYear_loop.induct)
  case (1 points adj i)
  show ?case
  proof (cases "i < length adj")
    case False
    then show ?thesis using "1.prems" by (subst sameYear_loop.simps, subst (2) sameYear_loop.simps) simp
  next
    case True
    let ?cy = "Year (adj ! i)"
    let ?n = "sameYearCount_loop points ?cy 0 0"
    have ai: "adj ! i = points ! i" using True "1.prems" by simp
    show ?thesis
    proof (cases "?n > 1")
      case gt: True
      let ?adj' = "adj[i := (adj ! i)\<lparr>Year := newYear ?cy ?n (eventIndex_loop points ?cy i 0 0)\<rparr>]"
      have eq: "sameYear_loop points adj i = sameYear_loop points ?adj' (i + 1)"
        using True gt by (subst sameYear_loop.simps) (simp add: Let_def)
      have IH: "length (sameYear_loop points ?adj' (i + 1)) = length points \<and>
        (\<forall>k<length points. sameYear_loop points ?adj' (i + 1) ! k = (if k < i + 1 then ?adj' ! k else spaced points k))"
        using "1.IH"(1) [OF True refl refl gt refl] "1.prems" by simp
      have sp: "?adj' ! i = spaced points i"
        using True gt "1.prems" ai
        by (simp add: spaced_def Let_def sameYearCount_groupSize eventIndex_rank newYear_def)
      show ?thesis unfolding eq using IH sp True
        by (auto simp: less_Suc_eq)
    next
      case le: False
      have eq: "sameYear_loop points adj i = sameYear_loop points adj (i + 1)"
        using True le by (subst sameYear_loop.simps) (simp add: Let_def)
      have IH: "length (sameYear_loop points adj (i + 1)) = length points \<and>
        (\<forall>k<length points. sameYear_loop points adj (i + 1) ! k = (if k < i + 1 then adj ! k else spaced points k))"
        using "1.IH"(2) [OF True refl refl le] "1.prems" by simp
      have sp: "adj ! i = spaced points i"
        using True le "1.prems" ai
        by (simp add: spaced_def Let_def sameYearCount_groupSize)
      show ?thesis unfolding eq using IH sp True
        by (auto simp: less_Suc_eq)
    qed
  qed
qed

lemma sameYearPass_length: "length (sameYearPass points) = length points"
  using sameYear_loop_nth [of points points 0] by (simp add: sameYearPass_def)

lemma sameYearPass_nth: "i < length points \<Longrightarrow> sameYearPass points ! i = spaced points i"
  using sameYear_loop_nth [of points points 0] by (simp add: sameYearPass_def)









subsection \<open>Second pass\<close>

lemma count_loop_eq:
  "count_loop adj i j c
     = c + length (filter (\<lambda>p. \<bar>Year p - Year (adj ! i)\<bar> \<le> 3) (drop j adj))"
proof (induction adj i j c rule: count_loop.induct)
  case (1 adj i j c)
  show ?case
  proof (cases "j < length adj")
    case True
    then have d: "drop j adj = adj ! j # drop (Suc j) adj"
      by (simp add: Cons_nth_drop_Suc)
    show ?thesis
      using 1 True d by (subst count_loop.simps) (auto simp: Let_def)
  next
    case False
    then show ?thesis by (subst count_loop.simps) simp
  qed
qed

lemma densities_loop_nth:
  "length ds = length adj \<Longrightarrow>
   length (densities_loop adj ds i) = length adj \<and>
   (\<forall>k<length adj. densities_loop adj ds i ! k
        = (if k < i then ds ! k else real (length (inWindow adj k))))"
proof (induction adj ds i rule: densities_loop.induct)
  case (1 adj ds i)
  show ?case
  proof (cases "i < length adj")
    case False
    then show ?thesis using "1.prems"
      by (subst densities_loop.simps, subst (2) densities_loop.simps) simp
  next
    case True
    let ?ds' = "ds[i := real (count_loop adj i 0 0)]"
    have eq: "densities_loop adj ds i = densities_loop adj ?ds' (i + 1)"
      using True by (subst densities_loop.simps) simp
    have IH: "length (densities_loop adj ?ds' (i + 1)) = length adj \<and>
      (\<forall>k<length adj. densities_loop adj ?ds' (i + 1) ! k
          = (if k < i + 1 then ?ds' ! k else real (length (inWindow adj k))))"
      using "1.IH" [OF True] "1.prems" by simp
    have here: "?ds' ! i = real (length (inWindow adj i))"
      using True "1.prems" by (simp add: count_loop_eq inWindow_def)
    show ?thesis unfolding eq using IH here True
      by (auto simp: less_Suc_eq)
  qed
qed

lemma computeDensities_length: "length (computeDensities adj) = length adj"
  using densities_loop_nth [of "replicate (length adj) 0" adj 0]
  by (simp add: computeDensities_def)

lemma computeDensities_nth:
  "i < length adj \<Longrightarrow> computeDensities adj ! i = real (length (inWindow adj i))"
  using densities_loop_nth [of "replicate (length adj) 0" adj 0]
  by (simp add: computeDensities_def)

lemma scaledDistances_loop_eq:
  "length sd = length adj \<Longrightarrow>
   length (fst (scaledDistances_loop adj d sd tot i)) = length adj \<and>
   (\<forall>k<length adj. fst (scaledDistances_loop adj d sd tot i) ! k
        = (if k < i then sd ! k else scaledGap adj d k)) \<and>
   snd (scaledDistances_loop adj d sd tot i)
        = tot + (\<Sum>k = i..<length adj. scaledGap adj d k)"
proof (induction adj d sd tot i rule: scaledDistances_loop.induct)
  case (1 adj d sd tot i)
  show ?case
  proof (cases "i < length adj")
    case False
    then show ?thesis using "1.prems"
      by (subst scaledDistances_loop.simps, subst (2) scaledDistances_loop.simps,
          subst (3) scaledDistances_loop.simps) simp
  next
    case True
    let ?sd' = "sd[i := scaledGap adj d i]"
    have here: "?sd' ! i = scaledGap adj d i"
      using True "1.prems" by simp
    have eq: "scaledDistances_loop adj d sd tot i
        = scaledDistances_loop adj d ?sd' (tot + scaledGap adj d i) (i + 1)"
      using True "1.prems" by (subst scaledDistances_loop.simps) (simp add: Let_def scaledGap_def)
    have IH: "length (fst (scaledDistances_loop adj d ?sd' (tot + scaledGap adj d i) (i + 1))) = length adj \<and>
      (\<forall>k<length adj. fst (scaledDistances_loop adj d ?sd' (tot + scaledGap adj d i) (i + 1)) ! k
          = (if k < i + 1 then ?sd' ! k else scaledGap adj d k)) \<and>
      snd (scaledDistances_loop adj d ?sd' (tot + scaledGap adj d i) (i + 1))
          = tot + scaledGap adj d i + (\<Sum>k = i + 1..<length adj. scaledGap adj d k)"
      using "1.IH" [OF True refl refl] "1.prems" here by (simp add: scaledGap_def)
    have s: "(\<Sum>k = i..<length adj. scaledGap adj d k)
        = scaledGap adj d i + (\<Sum>k = i + 1..<length adj. scaledGap adj d k)"
      using True by (simp add: sum.atLeast_Suc_lessThan)
    show ?thesis unfolding eq using IH here True s
      by (auto simp: less_Suc_eq)
  qed
qed

lemma computeScaledDistances_eq:
  "length (fst (computeScaledDistances adj)) = length adj \<and>
   (\<forall>k<length adj. 1 \<le> k \<longrightarrow> fst (computeScaledDistances adj) ! k = scaledGap adj (computeDensities adj) k) \<and>
   snd (computeScaledDistances adj) = totalScaled adj"
  using scaledDistances_loop_eq [of "replicate (length adj) 0" adj "computeDensities adj" 0 1]
  by (auto simp: computeScaledDistances_def totalScaled_def)

lemma position_loop_eq:
  "length ds = length adj \<Longrightarrow>
   \<exists>out. position_loop adj sd tot minY rng ds cum i = Inr out \<and> length out = length adj \<and>
     (\<forall>k<length adj. out ! k =
        (if k < i then ds ! k
         else (ds ! k)\<lparr>Year := (if tot > 0 then minY + ((cum + (\<Sum>j = i..k. sd ! j)) / tot) * rng
                                 else Year (adj ! k))\<rparr>))"
proof (induction adj sd tot minY rng ds cum i rule: position_loop.induct)
  case (1 adj sd tot minY rng ds cum i)
  show ?case
  proof (cases "i < length adj")
    case False
    then show ?thesis using "1.prems" by (subst position_loop.simps) simp
  next
    case True
    let ?cum' = "cum + sd ! i"
    have shift: "\<And>k. i < k \<Longrightarrow> ?cum' + (\<Sum>j = i + 1..k. sd ! j) = cum + (\<Sum>j = i..k. sd ! j)"
      by (simp add: sum.atLeast_Suc_atMost)
    show ?thesis
    proof (cases "tot > 0")
      case pos: True
      let ?ds' = "ds[i := (ds ! i)\<lparr>Year := minY + (?cum' / tot) * rng\<rparr>]"
      have eq: "position_loop adj sd tot minY rng ds cum i
          = position_loop adj sd tot minY rng ?ds' ?cum' (i + 1)"
        using True pos by (subst position_loop.simps) (simp add: Let_def fdiv_def)
      obtain out where out: "position_loop adj sd tot minY rng ?ds' ?cum' (i + 1) = Inr out"
        "length out = length adj"
        "\<forall>k<length adj. out ! k =
          (if k < i + 1 then ?ds' ! k
           else (?ds' ! k)\<lparr>Year := (if tot > 0 then minY + ((?cum' + (\<Sum>j = i + 1..k. sd ! j)) / tot) * rng
                                   else Year (adj ! k))\<rparr>)"
        using "1.IH"(1) [OF True refl pos, of "?cum' / tot"] "1.prems" pos
        by (auto simp: fdiv_def)
      have "\<forall>k<length adj. out ! k =
        (if k < i then ds ! k
         else (ds ! k)\<lparr>Year := (if tot > 0 then minY + ((cum + (\<Sum>j = i..k. sd ! j)) / tot) * rng
                                 else Year (adj ! k))\<rparr>)"
      proof (intro allI impI)
        fix k assume k: "k < length adj"
        consider "k < i" | "k = i" | "i < k" by linarith
        then show "out ! k =
          (if k < i then ds ! k
           else (ds ! k)\<lparr>Year := (if tot > 0 then minY + ((cum + (\<Sum>j = i..k. sd ! j)) / tot) * rng
                                   else Year (adj ! k))\<rparr>)"
        proof cases
          case 1 then show ?thesis using out(3) k by simp
        next
          case 2 then show ?thesis using out(3) k pos "1.prems" by simp
        next
          case 3 then show ?thesis using out(3) k pos shift [OF 3] by simp
        qed
      qed
      then show ?thesis unfolding eq using out(1,2) by blast
    next
      case npos: False
      let ?ds' = "ds[i := (ds ! i)\<lparr>Year := Year (adj ! i)\<rparr>]"
      have eq: "position_loop adj sd tot minY rng ds cum i
          = position_loop adj sd tot minY rng ?ds' ?cum' (i + 1)"
        using True npos by (subst position_loop.simps) (simp add: Let_def)
      obtain out where out: "position_loop adj sd tot minY rng ?ds' ?cum' (i + 1) = Inr out"
        "length out = length adj"
        "\<forall>k<length adj. out ! k =
          (if k < i + 1 then ?ds' ! k
           else (?ds' ! k)\<lparr>Year := (if tot > 0 then minY + ((?cum' + (\<Sum>j = i + 1..k. sd ! j)) / tot) * rng
                                   else Year (adj ! k))\<rparr>)"
        using "1.IH"(2) [OF True refl npos] "1.prems" by auto
      have "\<forall>k<length adj. out ! k =
        (if k < i then ds ! k
         else (ds ! k)\<lparr>Year := (if tot > 0 then minY + ((cum + (\<Sum>j = i..k. sd ! j)) / tot) * rng
                                 else Year (adj ! k))\<rparr>)"
      proof (intro allI impI)
        fix k assume k: "k < length adj"
        consider "k < i" | "k = i" | "i < k" by linarith
        then show "out ! k =
          (if k < i then ds ! k
           else (ds ! k)\<lparr>Year := (if tot > 0 then minY + ((cum + (\<Sum>j = i..k. sd ! j)) / tot) * rng
                                   else Year (adj ! k))\<rparr>)"
        proof cases
          case 1 then show ?thesis using out(3) k by simp
        next
          case 2 then show ?thesis using out(3) k npos "1.prems" by simp
        next
          case 3 then show ?thesis using out(3) k npos by simp
        qed
      qed
      then show ?thesis unfolding eq using out(1,2) by blast
    qed
  qed
qed

lemma densityScale_eq:
  "\<exists>out. densityScale adj = Inr out \<and> length out = length adj \<and>
     (\<forall>k<length adj. out ! k = (adj ! k)\<lparr>Year := scaledYear adj k\<rparr>)"
proof (cases "adj = []")
  case True
  then show ?thesis by (simp add: densityScale_def)
next
  case False
  let ?sd = "fst (computeScaledDistances adj)"
  let ?tot = "snd (computeScaledDistances adj)"
  let ?minY = "Year (adj ! 0)"
  let ?rng = "Year (adj ! (length adj - 1)) - ?minY"
  let ?ds = "adj[0 := (adj ! 0)\<lparr>Year := ?minY\<rparr>]"
  have eq: "densityScale adj = position_loop adj ?sd ?tot ?minY ?rng ?ds 0 1"
    using False by (simp add: densityScale_def Let_def case_prod_beta)
  obtain out where out: "position_loop adj ?sd ?tot ?minY ?rng ?ds 0 1 = Inr out"
    "length out = length adj"
    "\<forall>k<length adj. out ! k =
        (if k < 1 then ?ds ! k
         else (?ds ! k)\<lparr>Year := (if ?tot > 0 then ?minY + ((0 + (\<Sum>j = 1..k. ?sd ! j)) / ?tot) * ?rng
                                 else Year (adj ! k))\<rparr>)"
    using position_loop_eq [of ?ds adj ?sd ?tot ?minY ?rng 0 1] by auto
  have sums: "\<And>k. k < length adj \<Longrightarrow>
      (\<Sum>j = 1..k. ?sd ! j) = (\<Sum>j = 1..k. scaledGap adj (computeDensities adj) j)"
    using computeScaledDistances_eq [of adj] by (intro sum.cong) auto
  have "\<forall>k<length adj. out ! k = (adj ! k)\<lparr>Year := scaledYear adj k\<rparr>"
  proof (intro allI impI)
    fix k assume k: "k < length adj"
    show "out ! k = (adj ! k)\<lparr>Year := scaledYear adj k\<rparr>"
    proof (cases "k = 0")
      case True
      then show ?thesis using out(3) k by (simp add: scaledYear_def)
    next
      case nz: False
      then show ?thesis using out(3) k sums [OF k] computeScaledDistances_eq [of adj]
        by (simp add: scaledYear_def)
    qed
  qed
  then show ?thesis unfolding eq using out(1,2) by blast
qed

subsection \<open>Third pass and the pipeline\<close>

lemma order_loop_frame:
  "length (order_loop ds i) = length ds \<and>
   (\<forall>k<length ds. Value (order_loop ds i ! k) = Value (ds ! k) \<and>
                    Label (order_loop ds i ! k) = Label (ds ! k) \<and>
                    Year (ds ! k) \<le> Year (order_loop ds i ! k) \<and>
                    (k < i \<longrightarrow> order_loop ds i ! k = ds ! k))"
proof (induction ds i rule: order_loop.induct)
  case (1 ds i)
  show ?case
  proof (cases "i < length ds")
    case False
    then show ?thesis by (subst order_loop.simps, subst (2) order_loop.simps,
      subst (3) order_loop.simps, subst (4) order_loop.simps, subst (5) order_loop.simps) simp
  next
    case True
    show ?thesis
    proof (cases "Year (ds ! i) \<le> Year (ds ! (i - 1))")
      case le: True
      let ?ds' = "ds[i := (ds ! i)\<lparr>Year := Year (ds ! (i - 1)) + 0.1\<rparr>]"
      have eq: "order_loop ds i = order_loop ?ds' (i + 1)"
        using True le by (subst order_loop.simps) simp
      have IH: "length (order_loop ?ds' (i + 1)) = length ?ds' \<and>
        (\<forall>k<length ?ds'. Value (order_loop ?ds' (i + 1) ! k) = Value (?ds' ! k) \<and>
                    Label (order_loop ?ds' (i + 1) ! k) = Label (?ds' ! k) \<and>
                    Year (?ds' ! k) \<le> Year (order_loop ?ds' (i + 1) ! k) \<and>
                    (k < i + 1 \<longrightarrow> order_loop ?ds' (i + 1) ! k = ?ds' ! k))"
        using "1.IH"(1) [OF True le] .
      have "\<forall>k<length ds. Value (order_loop ?ds' (i + 1) ! k) = Value (ds ! k) \<and>
                    Label (order_loop ?ds' (i + 1) ! k) = Label (ds ! k) \<and>
                    Year (ds ! k) \<le> Year (order_loop ?ds' (i + 1) ! k) \<and>
                    (k < i \<longrightarrow> order_loop ?ds' (i + 1) ! k = ds ! k)"
      proof (intro allI impI)
        fix k assume k: "k < length ds"
        show "Value (order_loop ?ds' (i + 1) ! k) = Value (ds ! k) \<and>
                    Label (order_loop ?ds' (i + 1) ! k) = Label (ds ! k) \<and>
                    Year (ds ! k) \<le> Year (order_loop ?ds' (i + 1) ! k) \<and>
                    (k < i \<longrightarrow> order_loop ?ds' (i + 1) ! k = ds ! k)"
        proof -
          have k': "k < length ?ds'" using k by simp
          note IHk = IH [THEN conjunct2, rule_format, OF k']
          show ?thesis
          proof (cases "k = i")
            case True
            then show ?thesis using IHk k le by simp
          next
            case False
            then show ?thesis using IHk k by simp
          qed
        qed
      qed
      then show ?thesis unfolding eq using IH by simp
    next
      case gt: False
      have eq: "order_loop ds i = order_loop ds (i + 1)"
        using True gt by (subst order_loop.simps) simp
      show ?thesis unfolding eq using "1.IH"(2) [OF True gt] by simp
    qed
  qed
qed


lemma order_loop_unchanged:
  "(\<forall>k. i \<le> k \<and> k < length ds \<longrightarrow> Year (ds ! (k - 1)) < Year (ds ! k)) \<Longrightarrow> order_loop ds i = ds"
proof (induction ds i rule: order_loop.induct)
  case (1 ds i)
  show ?case
  proof (cases "i < length ds")
    case False
    then show ?thesis by (subst order_loop.simps) simp
  next
    case True
    then have gt: "\<not> Year (ds ! i) \<le> Year (ds ! (i - 1))"
      using "1.prems" by (simp add: not_le)
    have "order_loop ds i = order_loop ds (i + 1)"
      using True gt by (subst order_loop.simps) simp
    also have "\<dots> = ds"
      using "1.IH"(2) [OF True gt] "1.prems" by simp
    finally show ?thesis .
  qed
qed

lemma adjustPoints_eq:
  "adjustPoints points = Inr (enforceOrder (map (\<lambda>k. (sameYearPass points ! k)\<lparr>Year := scaledYear (sameYearPass points) k\<rparr>) [0..<length points]))"
proof -
  obtain out where out: "densityScale (sameYearPass points) = Inr out"
    "length out = length (sameYearPass points)"
    "\<forall>k<length (sameYearPass points). out ! k = (sameYearPass points ! k)\<lparr>Year := scaledYear (sameYearPass points) k\<rparr>"
    using densityScale_eq [of "sameYearPass points"] by blast
  have "out = map (\<lambda>k. (sameYearPass points ! k)\<lparr>Year := scaledYear (sameYearPass points) k\<rparr>) [0..<length points]"
    using out(2,3) by (intro nth_equalityI) (simp_all add: sameYearPass_length)
  then show ?thesis using out(1) by (simp add: adjustPoints_def)
qed

subsection \<open>Evaluation on concrete inputs\<close>

lemmas first_pass_simps = sameYearPass_def sameYear_loop.simps sameYearCount_loop.simps
  eventIndex_loop.simps newYear_def Let_def

lemmas second_pass_simps = densityScale_def computeScaledDistances_def
  computeDensities_def densities_loop.simps count_loop.simps scaledDistances_loop.simps
  position_loop.simps scaleFactor_def fdiv_def

lemmas third_pass_simps = enforceOrder_def order_loop.simps

subsection \<open>Further facts about the passes\<close>

lemma spaced_frame:
  "Value (spaced points k) = Value (points ! k) \<and> Label (spaced points k) = Label (points ! k)"
  by (simp add: spaced_def Let_def)

lemma density_at_least_one:
  assumes "i < length adj"
  shows "1 \<le> computeDensities adj ! i"
proof -
  have "adj ! i \<in> set (inWindow adj i)"
    using assms by (simp add: inWindow_def)
  then have "1 \<le> length (inWindow adj i)"
    by (cases "inWindow adj i") simp_all
  then show ?thesis using assms by (simp add: computeDensities_nth)
qed

lemma scaleFactor_at_least_one: "1 \<le> d \<Longrightarrow> 1 \<le> d' \<Longrightarrow> 1 \<le> scaleFactor d d'"
  by (simp add: scaleFactor_def Let_def)


lemma computeScaledDistances_nth:
  "1 \<le> i \<Longrightarrow> i < length adj \<Longrightarrow>
   fst (computeScaledDistances adj) ! i
     = (Year (adj ! i) - Year (adj ! (i - 1)))
         * scaleFactor (computeDensities adj ! i) (computeDensities adj ! (i - 1))"
  using computeScaledDistances_eq [of adj] by (simp add: scaledGap_def)











section \<open>The properties\<close>

subsection \<open>Strictly increasing years\<close>



subsection \<open>Only the year is modified\<close>

text \<open>
  C2. For every input sequence the three passes return a sequence of the same length in
  which point \<open>i\<close> has the value and the label of point \<open>i\<close> of the input; the output
  point is the input point with another year.
\<close>

theorem adjustPoints_frame:
  "\<exists>out. adjustPoints points = Inr out \<and> length out = length points \<and>
     (\<forall>i<length points.
        Value (out ! i) = Value (points ! i) \<and> Label (out ! i) = Label (points ! i) \<and>
        out ! i = (points ! i)\<lparr>Year := Year (out ! i)\<rparr>)"
proof -
  let ?ds = "map (\<lambda>k. (sameYearPass points ! k)\<lparr>Year := scaledYear (sameYearPass points) k\<rparr>)
    [0..<length points]"
  have len: "length (enforceOrder ?ds) = length points"
    unfolding enforceOrder_def using order_loop_frame [of ?ds 1] by simp
  have "Value (enforceOrder ?ds ! i) = Value (points ! i) \<and>
        Label (enforceOrder ?ds ! i) = Label (points ! i) \<and>
        enforceOrder ?ds ! i = (points ! i)\<lparr>Year := Year (enforceOrder ?ds ! i)\<rparr>"
    if i: "i < length points" for i
  proof -
    have "Value (enforceOrder ?ds ! i) = Value (?ds ! i)" "Label (enforceOrder ?ds ! i) = Label (?ds ! i)"
      unfolding enforceOrder_def using order_loop_frame [of ?ds 1] i by simp_all
    then have vl: "Value (enforceOrder ?ds ! i) = Value (points ! i)"
      "Label (enforceOrder ?ds ! i) = Label (points ! i)"
      using i by (simp_all add: sameYearPass_nth spaced_frame)
    then show ?thesis by simp
  qed
  then show ?thesis using len by (simp add: adjustPoints_eq)
qed

theorem adjustPoints_frame_witness:
  "\<exists>out. adjustPoints scenario = Inr out \<and> length out = 3 \<and>
     Value (out ! 1) = 20 \<and> Label (out ! 1) = ''B'' \<and>
     out ! 1 = \<lparr>Year = Year (out ! 1), Value = 20, Label = ''B''\<rparr>"
proof -
  obtain out where out: "adjustPoints scenario = Inr out" "length out = length scenario"
    "\<forall>i<length scenario.
        Value (out ! i) = Value (scenario ! i) \<and> Label (out ! i) = Label (scenario ! i) \<and>
        out ! i = (scenario ! i)\<lparr>Year := Year (out ! i)\<rparr>"
    using adjustPoints_frame [of scenario] by blast
  have "Value (out ! 1) = 20 \<and> Label (out ! 1) = ''B'' \<and>
     out ! 1 = \<lparr>Year = Year (out ! 1), Value = 20, Label = ''B''\<rparr>"
    using out(3) [rule_format, of 1] by simp
  then show ?thesis using out(1,2) by simp
qed

subsection \<open>The symmetric fan of the first pass\<close>



subsection \<open>The anchors of the second pass\<close>




subsection \<open>No division by zero\<close>

text \<open>
  C5. For every input the second pass returns a result, that is, the division of line 201
  never has the divisor zero: it is only reached when \<open>totalScaledDistance > 0\<close>. When
  the total is not positive, every point from index 1 on is returned as it was after the
  first pass.
\<close>

theorem densityScale_no_division_by_zero:
  "\<exists>out. densityScale adjustedPoints = Inr out \<and> length out = length adjustedPoints \<and>
     (\<not> snd (computeScaledDistances adjustedPoints) > 0 \<longrightarrow>
        (\<forall>i. 1 \<le> i \<and> i < length adjustedPoints \<longrightarrow> out ! i = adjustedPoints ! i))"
proof -
  obtain out where out: "densityScale adjustedPoints = Inr out"
    "length out = length adjustedPoints"
    "\<forall>k<length adjustedPoints. out ! k = (adjustedPoints ! k)\<lparr>Year := scaledYear adjustedPoints k\<rparr>"
    using densityScale_eq [of adjustedPoints] by blast
  have "out ! i = adjustedPoints ! i"
    if "\<not> snd (computeScaledDistances adjustedPoints) > 0" "1 \<le> i" "i < length adjustedPoints" for i
    using that out(3) computeScaledDistances_eq [of adjustedPoints] by (simp add: scaledYear_def)
  then show ?thesis using out(1,2) by blast
qed

theorem densityScale_no_division_by_zero_witness:
  "\<not> snd (computeScaledDistances
        [\<lparr>Year = 1990, Value = 10, Label = ''A''\<rparr>, \<lparr>Year = 1990, Value = 20, Label = ''B''\<rparr>]) > 0 \<and>
   (\<exists>out. densityScale
        [\<lparr>Year = 1990, Value = 10, Label = ''A''\<rparr>, \<lparr>Year = 1990, Value = 20, Label = ''B''\<rparr>]
        = Inr out \<and>
      length out = 2 \<and> out ! 1 = \<lparr>Year = 1990, Value = 20, Label = ''B''\<rparr>)"
proof -
  let ?adj = "[\<lparr>Year = 1990, Value = 10, Label = ''A''\<rparr>, \<lparr>Year = 1990, Value = 20, Label = ''B''\<rparr>]"
  have tot: "\<not> snd (computeScaledDistances ?adj) > 0"
    by (simp add: second_pass_simps)
  obtain out where out: "densityScale ?adj = Inr out" "length out = length ?adj"
    "\<not> snd (computeScaledDistances ?adj) > 0 \<longrightarrow>
        (\<forall>i. 1 \<le> i \<and> i < length ?adj \<longrightarrow> out ! i = ?adj ! i)"
    using densityScale_no_division_by_zero [of ?adj] by blast
  have "out ! 1 = ?adj ! 1"
    using out(3) tot by simp
  then show ?thesis using tot out(1,2) by simp
qed

subsection \<open>The scenario of the specification\<close>

text \<open>
  C6. On \<open>[(1990, 10, A), (1990, 20, B), (1995, 5, C)]\<close> the first pass counts two events
  in 1990, gives A the index 0 and B the index 1, and returns the years \<open>1989.9\<close>, \<open>1990.1\<close>
  and \<open>1995\<close>. The second pass moves only the middle point (to \<open>2408119 / 1210\<close>, about
  \<open>1990.181\<close>) and keeps \<open>1989.9\<close> and \<open>1995\<close>. The result is strictly increasing, and the
  third pass returns it unchanged.
\<close>

theorem scenario_trace:
  "sameYearCount_loop scenario 1990 0 0 = 2 \<and>
   eventIndex_loop scenario 1990 0 0 0 = 0 \<and>
   eventIndex_loop scenario 1990 1 0 0 = 1 \<and>
   sameYearCount_loop scenario 1995 0 0 = 1 \<and>
   newYear 1990 2 0 = 1989.9 \<and> newYear 1990 2 1 = 1990.1 \<and>
   sameYearPass scenario = spacedScenario \<and>
   densityScale spacedScenario
     = Inr [\<lparr>Year = 1989.9, Value = 10, Label = ''A''\<rparr>,
            \<lparr>Year = 2408119 / 1210, Value = 20, Label = ''B''\<rparr>,
            \<lparr>Year = 1995, Value = 5, Label = ''C''\<rparr>] \<and>
   (1989.9 :: real) < 2408119 / 1210 \<and> (2408119 / 1210 :: real) < 1995 \<and>
   (2408119 / 1210 :: real) \<noteq> 1990.1 \<and>
   enforceOrder [\<lparr>Year = 1989.9, Value = 10, Label = ''A''\<rparr>,
            \<lparr>Year = 2408119 / 1210, Value = 20, Label = ''B''\<rparr>,
            \<lparr>Year = 1995, Value = 5, Label = ''C''\<rparr>]
     = [\<lparr>Year = 1989.9, Value = 10, Label = ''A''\<rparr>,
        \<lparr>Year = 2408119 / 1210, Value = 20, Label = ''B''\<rparr>,
        \<lparr>Year = 1995, Value = 5, Label = ''C''\<rparr>] \<and>
   adjustPoints scenario
     = Inr [\<lparr>Year = 1989.9, Value = 10, Label = ''A''\<rparr>,
            \<lparr>Year = 2408119 / 1210, Value = 20, Label = ''B''\<rparr>,
            \<lparr>Year = 1995, Value = 5, Label = ''C''\<rparr>]"
proof -
  have 1: "sameYearPass scenario = spacedScenario"
    by (simp add: first_pass_simps)
  have 2: "densityScale spacedScenario
     = Inr [\<lparr>Year = 1989.9, Value = 10, Label = ''A''\<rparr>,
            \<lparr>Year = 2408119 / 1210, Value = 20, Label = ''B''\<rparr>,
            \<lparr>Year = 1995, Value = 5, Label = ''C''\<rparr>]"
    by (simp add: second_pass_simps)
  have 3: "enforceOrder [\<lparr>Year = 1989.9, Value = 10, Label = ''A''\<rparr>,
            \<lparr>Year = 2408119 / 1210, Value = 20, Label = ''B''\<rparr>,
            \<lparr>Year = 1995, Value = 5, Label = ''C''\<rparr>]
     = [\<lparr>Year = 1989.9, Value = 10, Label = ''A''\<rparr>,
        \<lparr>Year = 2408119 / 1210, Value = 20, Label = ''B''\<rparr>,
        \<lparr>Year = 1995, Value = 5, Label = ''C''\<rparr>]"
    by (simp add: third_pass_simps)
  have 4: "sameYearCount_loop scenario 1990 0 0 = 2" "eventIndex_loop scenario 1990 0 0 0 = 0"
    "eventIndex_loop scenario 1990 1 0 0 = 1" "sameYearCount_loop scenario 1995 0 0 = 1"
    by (simp_all add: first_pass_simps)
  have 6: "newYear 1990 2 0 = 1989.9" "newYear 1990 2 1 = 1990.1"
    by (simp_all add: newYear_def)
  have 5: "adjustPoints scenario
     = Inr [\<lparr>Year = 1989.9, Value = 10, Label = ''A''\<rparr>,
            \<lparr>Year = 2408119 / 1210, Value = 20, Label = ''B''\<rparr>,
            \<lparr>Year = 1995, Value = 5, Label = ''C''\<rparr>]"
    unfolding adjustPoints_def 1 2 by (simp add: 3)
  show ?thesis using 1 2 3 4 5 6 by simp
qed

subsection \<open>Density and its effect on the scaled distances\<close>




subsection \<open>A single point\<close>

text \<open>
  C8. A sequence of one point is returned unchanged by each pass and by the pipeline: the
  first pass counts one event, the loop of the scaled distances does not run (the array
  of scaled distances and the total stay zero), and neither of the other loops runs.
\<close>

theorem single_point_unchanged:
  "sameYearPass [p] = [p] \<and> computeScaledDistances [p] = ([0], 0) \<and>
   densityScale [p] = Inr [p] \<and> enforceOrder [p] = [p] \<and> adjustPoints [p] = Inr [p]"
proof -
  have 1: "sameYearPass [p] = [p]"
    by (simp add: sameYearPass_def sameYear_loop.simps sameYearCount_loop.simps)
  have 2: "computeScaledDistances [p] = ([0], 0)"
    by (simp add: computeScaledDistances_def scaledDistances_loop.simps)
  have 3: "densityScale [p] = Inr [p]"
    by (simp add: densityScale_def 2 position_loop.simps)
  have 4: "enforceOrder [p] = [p]"
    by (simp add: enforceOrder_def order_loop.simps)
  show ?thesis using 1 2 3 4 by (simp add: adjustPoints_def)
qed

subsection \<open>Scale factors are at least one\<close>

text \<open>
  C9. Every density is at least 1, every scale factor is at least 1, and every scaled
  distance is the actual distance times the scale factor: it has the sign of the actual
  distance and at least its magnitude.
\<close>

theorem scaled_gap_sign_and_magnitude:
  "i < length adjustedPoints \<Longrightarrow>
   1 \<le> computeDensities adjustedPoints ! i \<and>
   (1 \<le> i \<longrightarrow>
      1 \<le> scaleFactor (computeDensities adjustedPoints ! i) (computeDensities adjustedPoints ! (i - 1)) \<and>
      fst (computeScaledDistances adjustedPoints) ! i
        = (Year (adjustedPoints ! i) - Year (adjustedPoints ! (i - 1)))
            * scaleFactor (computeDensities adjustedPoints ! i)
                (computeDensities adjustedPoints ! (i - 1)) \<and>
      sgn (fst (computeScaledDistances adjustedPoints) ! i)
        = sgn (Year (adjustedPoints ! i) - Year (adjustedPoints ! (i - 1))) \<and>
      \<bar>Year (adjustedPoints ! i) - Year (adjustedPoints ! (i - 1))\<bar>
        \<le> \<bar>fst (computeScaledDistances adjustedPoints) ! i\<bar>)"
proof (intro conjI impI)
  assume i: "i < length adjustedPoints"
  show "1 \<le> computeDensities adjustedPoints ! i"
    using i by (rule density_at_least_one)
  assume i1: "1 \<le> i"
  let ?sf = "scaleFactor (computeDensities adjustedPoints ! i) (computeDensities adjustedPoints ! (i - 1))"
  let ?gap = "Year (adjustedPoints ! i) - Year (adjustedPoints ! (i - 1))"
  show sf: "1 \<le> ?sf"
    using i by (intro scaleFactor_at_least_one density_at_least_one) simp_all
  show eq: "fst (computeScaledDistances adjustedPoints) ! i = ?gap * ?sf"
    by (rule computeScaledDistances_nth [OF i1 i])
  show "sgn (fst (computeScaledDistances adjustedPoints) ! i) = sgn ?gap"
    using sf by (simp add: eq sgn_mult)
  have "\<bar>?gap\<bar> * 1 \<le> \<bar>?gap\<bar> * ?sf"
    using sf by (intro mult_left_mono) simp_all
  then show "\<bar>?gap\<bar> \<le> \<bar>fst (computeScaledDistances adjustedPoints) ! i\<bar>"
    using sf by (simp add: eq abs_mult)
qed

theorem scaled_gap_sign_and_magnitude_witness:
  "(1::nat) < length spacedScenario \<and>
   1 \<le> computeDensities spacedScenario ! 1 \<and>
   1 \<le> scaleFactor (computeDensities spacedScenario ! 1) (computeDensities spacedScenario ! 0) \<and>
   sgn (fst (computeScaledDistances spacedScenario) ! 1)
     = sgn (Year (spacedScenario ! 1) - Year (spacedScenario ! 0)) \<and>
   \<bar>Year (spacedScenario ! 1) - Year (spacedScenario ! 0)\<bar>
     \<le> \<bar>fst (computeScaledDistances spacedScenario) ! 1\<bar>"
  using scaled_gap_sign_and_magnitude [of 1 spacedScenario] by simp

subsection \<open>The third pass never moves a point earlier\<close>

text \<open>
  C10. The third pass keeps the length, returns no year smaller than the one it was
  given, and returns a strictly increasing sequence exactly as it was.
\<close>

theorem enforceOrder_never_earlier:
  "length (enforceOrder ds) = length ds \<and>
   (\<forall>i<length ds. Year (ds ! i) \<le> Year (enforceOrder ds ! i)) \<and>
   ((\<forall>i. 0 < i \<and> i < length ds \<longrightarrow> Year (ds ! (i - 1)) < Year (ds ! i)) \<longrightarrow> enforceOrder ds = ds)"
proof (intro conjI impI)
  show "length (enforceOrder ds) = length ds"
    unfolding enforceOrder_def using order_loop_frame [of ds 1] by simp
  show "\<forall>i<length ds. Year (ds ! i) \<le> Year (enforceOrder ds ! i)"
    unfolding enforceOrder_def using order_loop_frame [of ds 1] by simp
  assume "\<forall>i. 0 < i \<and> i < length ds \<longrightarrow> Year (ds ! (i - 1)) < Year (ds ! i)"
  then show "enforceOrder ds = ds"
    unfolding enforceOrder_def by (intro order_loop_unchanged) simp
qed

theorem enforceOrder_never_earlier_witness:
  "(1::nat) < length [\<lparr>Year = 5, Value = 1, Label = ''P''\<rparr>, \<lparr>Year = 3, Value = 2, Label = ''Q''\<rparr>] \<and>
   Year ([\<lparr>Year = 5, Value = 1, Label = ''P''\<rparr>, \<lparr>Year = 3, Value = 2, Label = ''Q''\<rparr>] ! 1)
     \<le> Year (enforceOrder [\<lparr>Year = 5, Value = 1, Label = ''P''\<rparr>,
           \<lparr>Year = 3, Value = 2, Label = ''Q''\<rparr>] ! 1) \<and>
   Year (spacedScenario ! 0) < Year (spacedScenario ! 1) \<and>
   Year (spacedScenario ! 1) < Year (spacedScenario ! 2) \<and>
   enforceOrder spacedScenario = spacedScenario"
proof -
  have inc: "\<forall>i. 0 < i \<and> i < length spacedScenario \<longrightarrow>
      Year (spacedScenario ! (i - 1)) < Year (spacedScenario ! i)"
    by (auto simp: less_Suc_eq numeral_3_eq_3)
  have "Year ([\<lparr>Year = 5, Value = 1, Label = ''P''\<rparr>, \<lparr>Year = 3, Value = 2, Label = ''Q''\<rparr>] ! 1)
     \<le> Year (enforceOrder [\<lparr>Year = 5, Value = 1, Label = ''P''\<rparr>,
           \<lparr>Year = 3, Value = 2, Label = ''Q''\<rparr>] ! 1)"
    using enforceOrder_never_earlier
      [of "[\<lparr>Year = 5, Value = 1, Label = ''P''\<rparr>, \<lparr>Year = 3, Value = 2, Label = ''Q''\<rparr>]",
        THEN conjunct2, THEN conjunct1, rule_format, of 1]
    by simp
  moreover have "enforceOrder spacedScenario = spacedScenario"
    using enforceOrder_never_earlier [of spacedScenario] inc by blast
  ultimately show ?thesis by simp
qed

end
